theory Spec2Isabelle
  imports Complex_Main "HOL-Library.Word" "HOL-Library.Log_Nat"
begin

section \<open>transmake: translucency tables from a palette\<close>

text \<open>
  A shallow embedding of \<^verbatim>\<open>transmake.c\<close>. Bytes (\<^verbatim>\<open>unsigned char\<close>) are \<open>8 word\<close>.
  The C \<^verbatim>\<open>int\<close> and \<^verbatim>\<open>signed short\<close> values of the program stay far inside their
  ranges (every one is built from bytes by a few additions and one multiplication), so
  they are modelled as \<open>int\<close>. \<^verbatim>\<open>float\<close> values are modelled as the rationals they
  denote, every operation rounding its exact result to binary32.
\<close>

subsection \<open>Colours and blend styles\<close>

text \<open>
  \<^verbatim>\<open>RGBA_t\<close> is a union of an \<^verbatim>\<open>unsigned long\<close> with a struct of four bytes. The
  program only ever copies the long as a whole and reads the four bytes, so a value of
  the union is the record of its four channels.
\<close>

record RGBA_t =
  red :: "8 word"
  green :: "8 word"
  blue :: "8 word"
  alpha :: "8 word"

text \<open>\<^verbatim>\<open>enum alphastyle_e\<close>; the style travels as an \<^verbatim>\<open>int\<close>, as in the source.\<close>

definition AST_TRANSLUCENT :: int where "AST_TRANSLUCENT = 0"
definition AST_ADD :: int where "AST_ADD = 1"
definition AST_SUBTRACT :: int where "AST_SUBTRACT = 2"
definition AST_REVERSESUBTRACT :: int where "AST_REVERSESUBTRACT = 3"
definition AST_MODULATE :: int where "AST_MODULATE = 4"

subsection \<open>Single-precision arithmetic\<close>

text \<open>
  \<open>pow2 e\<close> is \<open>2\<^sup>e\<close>. \<open>f32_ilog2 x\<close> is the binary exponent of a positive \<open>x\<close>, the
  \<open>E\<close> with \<open>2\<^sup>E \<le> x < 2\<^sup>E\<^sup>+\<^sup>1\<close>: the difference of the bit lengths of numerator and
  denominator, or one less. \<open>f32 x\<close> is the binary32 value nearest to \<open>x\<close>, ties to
  even: a multiple of \<open>2\<^sup>E\<^sup>-\<^sup>2\<^sup>3\<close>, or of \<open>2\<^sup>-\<^sup>1\<^sup>4\<^sup>9\<close> in the subnormal range.
  Magnitudes of \<open>2\<^sup>1\<^sup>2\<^sup>8\<close> and more (infinities) do not arise from bytes and 32-bit
  integers and are not modelled.
\<close>

definition pow2 :: "int \<Rightarrow> rat" where
  "pow2 e = (if 0 \<le> e then 2 ^ nat e else 1 / 2 ^ nat (- e))"

definition f32_ilog2 :: "rat \<Rightarrow> int" where
  "f32_ilog2 x = (case quotient_of x of (p, q) \<Rightarrow>
     let d = bitlen p - bitlen q in if pow2 d \<le> x then d else d - 1)"

definition round_even :: "rat \<Rightarrow> int" where
  "round_even y = (let n = \<lfloor>y\<rfloor>; r = y - of_int n in
     if r < 1 / 2 then n else if 1 / 2 < r then n + 1 else if even n then n else n + 1)"

definition f32 :: "rat \<Rightarrow> rat" where
  "f32 x = (if x = 0 then 0 else
     let a = \<bar>x\<bar>; e = max (f32_ilog2 a - 23) (- 149); m = round_even (a / pow2 e)
     in sgn x * of_int m * pow2 e)"

text \<open>The conversion \<^verbatim>\<open>(float)i\<close> and the four operations on \<^verbatim>\<open>float\<close>.\<close>

definition float_of_int :: "int \<Rightarrow> rat" where
  "float_of_int i = f32 (of_int i)"

definition fadd :: "rat \<Rightarrow> rat \<Rightarrow> rat" where "fadd x y = f32 (x + y)"
definition fsub :: "rat \<Rightarrow> rat \<Rightarrow> rat" where "fsub x y = f32 (x - y)"
definition fmul :: "rat \<Rightarrow> rat \<Rightarrow> rat" where "fmul x y = f32 (x * y)"
definition fdiv :: "rat \<Rightarrow> rat \<Rightarrow> rat" where "fdiv x y = f32 (x / y)"

text \<open>The conversion \<^verbatim>\<open>(int)x\<close> discards the fractional part.\<close>

definition int_of_float :: "rat \<Rightarrow> int" where
  "int_of_float x = (if 0 \<le> x then \<lfloor>x\<rfloor> else \<lceil>x\<rceil>)"

subsection \<open>Blending two colours\<close>

text \<open>The macro \<^verbatim>\<open>clamp(c)\<close>, that is \<^verbatim>\<open>max(min(c, 0xFF), 0x00)\<close>.\<close>

definition clamp :: "int \<Rightarrow> int" where
  "clamp c = max (min c 255) 0"

text \<open>
  \<^verbatim>\<open>ASTBlendPixel\<close>. The local \<^verbatim>\<open>output\<close> is not initialised in the source: its
  indeterminate first contents are the parameter \<open>output\<close>, and a branch that assigns
  only some channels leaves the others as they are there. The parameter \<open>alpha0\<close> is
  the source's \<^verbatim>\<open>alpha\<close>; \<open>alpha1\<close> is its value after the assignment in the
  translucent branch. \<open>fullalpha\<close> lies in \<open>[-255, 255]\<close>.
\<close>

definition ASTBlendPixel :: "RGBA_t \<Rightarrow> RGBA_t \<Rightarrow> int \<Rightarrow> 8 word \<Rightarrow> RGBA_t \<Rightarrow> RGBA_t" where
  "ASTBlendPixel background foreground style alpha0 output =
    (let fullalpha = uint alpha0 - (255 - uint (alpha foreground)) in
     if style = AST_TRANSLUCENT then
       (if fullalpha \<le> 0 then background
        else
          let fullalpha = (if 255 \<le> fullalpha then 255 else fullalpha);
              alpha1 = (word_of_int fullalpha :: 8 word)
          in
            if alpha background = 0 then output\<lparr>alpha := 0\<rparr>
            else
              let beta = (255 - alpha1 :: 8 word) in
                output\<lparr>
                  red := word_of_int ((uint (red background) * uint beta
                           + uint (red foreground) * uint alpha1) div 255),
                  green := word_of_int ((uint (green background) * uint beta
                           + uint (green foreground) * uint alpha1) div 255),
                  blue := word_of_int ((uint (blue background) * uint beta
                           + uint (blue foreground) * uint alpha1) div 255),
                  alpha := 255\<rparr>)
     else
       let falpha = fdiv (float_of_int (uint alpha0)) 256;
           fr = fmul (float_of_int (uint (red foreground))) falpha;
           fg = fmul (float_of_int (uint (green foreground))) falpha;
           fb = fmul (float_of_int (uint (blue foreground))) falpha;
           output =
            (if style = AST_ADD then
               output\<lparr>
                 red := word_of_int (clamp (int_of_float
                          (fadd (float_of_int (uint (red background))) fr))),
                 green := word_of_int (clamp (int_of_float
                          (fadd (float_of_int (uint (green background))) fg))),
                 blue := word_of_int (clamp (int_of_float
                          (fadd (float_of_int (uint (blue background))) fb)))\<rparr>
             else if style = AST_SUBTRACT then
               output\<lparr>
                 red := word_of_int (clamp (int_of_float
                          (fsub (float_of_int (uint (red background))) fr))),
                 green := word_of_int (clamp (int_of_float
                          (fsub (float_of_int (uint (green background))) fg))),
                 blue := word_of_int (clamp (int_of_float
                          (fsub (float_of_int (uint (blue background))) fb)))\<rparr>
             else if style = AST_REVERSESUBTRACT then
               output\<lparr>
                 red := word_of_int (clamp (int_of_float
                          (fadd (float_of_int (- uint (red background))) fr))),
                 green := word_of_int (clamp (int_of_float
                          (fadd (float_of_int (- uint (green background))) fg))),
                 blue := word_of_int (clamp (int_of_float
                          (fadd (float_of_int (- uint (blue background))) fb)))\<rparr>
             else if style = AST_MODULATE then
               let fr = fdiv (float_of_int (uint (red foreground))) 256;
                   fg = fdiv (float_of_int (uint (green foreground))) 256;
                   fb = fdiv (float_of_int (uint (blue foreground))) 256
               in
                 output\<lparr>
                   red := word_of_int (clamp (int_of_float
                            (fmul (float_of_int (uint (red background))) fr))),
                   green := word_of_int (clamp (int_of_float
                            (fmul (float_of_int (uint (green background))) fg))),
                   blue := word_of_int (clamp (int_of_float
                            (fmul (float_of_int (uint (blue background))) fb)))\<rparr>
             else output)
       in output\<lparr>alpha := 255\<rparr>)"

subsection \<open>Reading the palette\<close>

definition PALSIZE :: nat where
  "PALSIZE = 256 * 3"

text \<open>
  The palette file as \<^verbatim>\<open>Pal_Read\<close> sees it: its bytes, and whether \<^verbatim>\<open>fread\<close>
  delivers the block it is asked for. \<open>None\<close> is a file that \<^verbatim>\<open>fopen\<close> cannot open.
\<close>

record palfile =
  file_bytes :: "8 word list"
  fread_ok :: bool

text \<open>
  The loop that makes the RGBA palette. Its condition is the comma expression
  \<^verbatim>\<open>i < 256, j < PALSIZE\<close>, whose value is that of \<^verbatim>\<open>j < PALSIZE\<close>.
\<close>

function Pal_Read_loop :: "8 word list \<Rightarrow> nat \<Rightarrow> nat \<Rightarrow> RGBA_t list \<Rightarrow> RGBA_t list" where
  "Pal_Read_loop rpalette i j palette =
    (if j < PALSIZE then
       Pal_Read_loop rpalette (i + 1) (j + 3)
         (palette[i := (palette ! i)\<lparr>
            red := rpalette ! j,
            green := rpalette ! (j + 1),
            blue := rpalette ! (j + 2),
            alpha := 255\<rparr>])
     else palette)"
  by pat_completeness auto
termination
  by (relation "measure (\<lambda>(rpalette, i, j, palette). PALSIZE - j)") auto

declare Pal_Read_loop.simps [simp del]

text \<open>
  \<^verbatim>\<open>Pal_Read\<close>, from the file and the array \<^verbatim>\<open>palette\<close> as it stands, to the new
  array; \<open>Inl\<close> carries the message of \<^verbatim>\<open>T_OutputError\<close> that precedes
  \<^verbatim>\<open>exit(EXIT_FAILURE)\<close>.
\<close>

definition Pal_Read :: "palfile option \<Rightarrow> RGBA_t list \<Rightarrow> string + RGBA_t list" where
  "Pal_Read fp palette =
    (case fp of
       None \<Rightarrow> Inl ''Could not open palette file for reading.''
     | Some f \<Rightarrow>
         if length (file_bytes f) < PALSIZE then Inl ''Palette file has incorrect size!''
         else if \<not> fread_ok f then Inl ''Couldn't read palette file!''
         else Inr (Pal_Read_loop (take PALSIZE (file_bytes f)) 0 0 palette))"

text \<open>The static array \<^verbatim>\<open>palette[PALSIZE]\<close> at program start: all bytes zero.\<close>

definition palette_init :: "RGBA_t list" where
  "palette_init = replicate PALSIZE \<lparr>red = 0, green = 0, blue = 0, alpha = 0\<rparr>"

subsection \<open>Nearest palette colour\<close>

text \<open>The value \<^verbatim>\<open>distortion\<close> takes at index \<open>i\<close>.\<close>

definition distortion :: "RGBA_t list \<Rightarrow> 8 word \<Rightarrow> 8 word \<Rightarrow> 8 word \<Rightarrow> nat \<Rightarrow> int" where
  "distortion palette r g b i =
    (let dr = uint r - uint (red (palette ! i));
         dg = uint g - uint (green (palette ! i));
         db = uint b - uint (blue (palette ! i))
     in dr * dr + dg * dg + db * db)"

function NearestPaletteColor_loop ::
  "RGBA_t list \<Rightarrow> 8 word \<Rightarrow> 8 word \<Rightarrow> 8 word \<Rightarrow> nat \<Rightarrow> int \<Rightarrow> nat \<Rightarrow> 8 word" where
  "NearestPaletteColor_loop palette r g b i bestdistortion bestcolor =
    (if i < 256 then
       if distortion palette r g b i < bestdistortion then
         if distortion palette r g b i = 0 then of_nat i
         else NearestPaletteColor_loop palette r g b (i + 1) (distortion palette r g b i) i
       else NearestPaletteColor_loop palette r g b (i + 1) bestdistortion bestcolor
     else of_nat bestcolor)"
  by pat_completeness auto
termination
  by (relation "measure (\<lambda>(palette, r, g, b, i, bestdistortion, bestcolor). 256 - i)") auto

declare NearestPaletteColor_loop.simps [simp del]

definition NearestPaletteColor :: "RGBA_t list \<Rightarrow> 8 word \<Rightarrow> 8 word \<Rightarrow> 8 word \<Rightarrow> 8 word" where
  "NearestPaletteColor palette r g b =
     NearestPaletteColor_loop palette r g b 0 (256 * 256 * 4) 0"

subsection \<open>Generating a table\<close>

text \<open>
  The first two lines of \<^verbatim>\<open>T_BlendTrans\<close>: \<^verbatim>\<open>amtmul\<close> is \<^verbatim>\<open>256.0f / 10.0f\<close>, and
  \<^verbatim>\<open>blendamt\<close> is the product \<^verbatim>\<open>amtmul * trans\<close> converted to \<^verbatim>\<open>unsigned char\<close>.
  That conversion discards the fraction; it is undefined in C when the integral part
  is not a value of the type, which is \<open>None\<close> here. The parameter \<open>trans'\<close> is the
  source's \<^verbatim>\<open>trans\<close>.
\<close>

definition T_BlendTrans_blendamt :: "int \<Rightarrow> 8 word option" where
  "T_BlendTrans_blendamt trans' =
    (let amtmul = fdiv 256 10;
         v = int_of_float (fmul amtmul (float_of_int trans'))
     in if 0 \<le> v \<and> v \<le> 255 then Some (word_of_int v) else None)"

text \<open>
  The inner and the outer loop over \<^verbatim>\<open>working\<close>. \<open>junk\<close> gives, for each cell, the
  indeterminate first contents of the local \<^verbatim>\<open>output\<close> of that call of
  \<^verbatim>\<open>ASTBlendPixel\<close>.
\<close>

function T_BlendTrans_x ::
  "RGBA_t list \<Rightarrow> int \<Rightarrow> 8 word \<Rightarrow> (nat \<Rightarrow> RGBA_t) \<Rightarrow> nat \<Rightarrow> nat \<Rightarrow> 8 word list \<Rightarrow> 8 word list" where
  "T_BlendTrans_x palette blendstyle blendamt junk y x working =
    (if x < 256 then
       let backcolor = (of_nat y :: 8 word);
           frontcolor = (of_nat x :: 8 word);
           backrgba = palette ! unat backcolor;
           frontrgba = palette ! unat frontcolor;
           result = ASTBlendPixel backrgba frontrgba blendstyle blendamt (junk (y * 256 + x))
       in T_BlendTrans_x palette blendstyle blendamt junk y (x + 1)
            (working[y * 256 + x :=
               NearestPaletteColor palette (red result) (green result) (blue result)])
     else working)"
  by pat_completeness auto
termination
  by (relation "measure (\<lambda>(palette, blendstyle, blendamt, junk, y, x, working). 256 - x)") auto

declare T_BlendTrans_x.simps [simp del]

function T_BlendTrans_y ::
  "RGBA_t list \<Rightarrow> int \<Rightarrow> 8 word \<Rightarrow> (nat \<Rightarrow> RGBA_t) \<Rightarrow> nat \<Rightarrow> 8 word list \<Rightarrow> 8 word list" where
  "T_BlendTrans_y palette blendstyle blendamt junk y working =
    (if y < 256 then
       T_BlendTrans_y palette blendstyle blendamt junk (y + 1)
         (T_BlendTrans_x palette blendstyle blendamt junk y 0 working)
     else working)"
  by pat_completeness auto
termination
  by (relation "measure (\<lambda>(palette, blendstyle, blendamt, junk, y, working). 256 - y)") auto

declare T_BlendTrans_y.simps [simp del]

definition T_BlendTrans ::
  "RGBA_t list \<Rightarrow> int \<Rightarrow> (nat \<Rightarrow> RGBA_t) \<Rightarrow> 8 word list \<Rightarrow> int \<Rightarrow> 8 word list option" where
  "T_BlendTrans palette blendstyle junk working trans' =
    (case T_BlendTrans_blendamt trans' of
       None \<Rightarrow> None
     | Some blendamt \<Rightarrow> Some (T_BlendTrans_y palette blendstyle blendamt junk 0 working))"

subsection \<open>The command line\<close>

text \<open>
  The library functions the parser uses, on the characters of a C string (a \<open>string\<close>
  holds them without the final zero): \<^verbatim>\<open>tolower\<close> and \<^verbatim>\<open>isdigit\<close> in the C locale,
  and \<^verbatim>\<open>stricmp\<close>, which compares two strings byte by byte after \<^verbatim>\<open>tolower\<close> and
  returns zero exactly when they agree.
\<close>

definition tolower :: "char \<Rightarrow> char" where
  "tolower c =
    (if (65 :: nat) \<le> of_char c \<and> of_char c \<le> (90 :: nat) then char_of (of_char c + 32 :: nat)
     else c)"

definition isdigit :: "char \<Rightarrow> bool" where
  "isdigit c = ((48 :: nat) \<le> of_char c \<and> of_char c \<le> (57 :: nat))"

fun stricmp :: "string \<Rightarrow> string \<Rightarrow> int" where
  "stricmp [] [] = 0"
| "stricmp [] (b # t) = - of_char (tolower b)"
| "stricmp (a # s) [] = of_char (tolower a)"
| "stricmp (a # s) (b # t) =
    (if tolower a = tolower b then stricmp s t
     else of_char (tolower a) - of_char (tolower b))"

text \<open>
  The static variables the parser assigns; \<open>None\<close> is \<^verbatim>\<open>NULL\<close>. \<open>parms_init\<close> is
  their state at program start.
\<close>

record parms =
  parm_palettefile :: "string option"
  parm_outprefix :: "string option"
  parm_outfiles :: "string option"
  blendstyle :: int

definition parms_init :: parms where
  "parms_init =
    \<lparr>parm_palettefile = None, parm_outprefix = None, parm_outfiles = None,
     blendstyle = AST_TRANSLUCENT\<rparr>"

text \<open>
  \<^verbatim>\<open>Parm_ParseParameter\<close>: \<open>parm_argv\<close> is the argument vector and \<^verbatim>\<open>parm_argc\<close> its
  length. The result is the returned index with the static variables after the call.
\<close>

definition Parm_ParseParameter :: "string list \<Rightarrow> string \<Rightarrow> nat \<Rightarrow> parms \<Rightarrow> nat \<times> parms" where
  "Parm_ParseParameter parm_argv parmstring p_argc st =
    (if length parm_argv \<le> p_argc then (p_argc + 1, st)
     else
       (p_argc + 1,
        if stricmp parmstring ''palette'' = 0 then
          st\<lparr>parm_palettefile := Some (parm_argv ! p_argc)\<rparr>
        else if stricmp parmstring ''outfiles'' = 0 then
          (let outfiles = parm_argv ! p_argc
           in if outfiles \<noteq> [] then st\<lparr>parm_outfiles := Some outfiles\<rparr> else st)
        else if stricmp parmstring ''outprefix'' = 0 then
          st\<lparr>parm_outprefix := Some (parm_argv ! p_argc)\<rparr>
        else if stricmp parmstring ''blendstyle'' = 0 then
          (let stylestring = parm_argv ! p_argc
           in if stricmp stylestring ''translucent'' = 0 then st\<lparr>blendstyle := AST_TRANSLUCENT\<rparr>
              else if stricmp stylestring ''add'' = 0 then st\<lparr>blendstyle := AST_ADD\<rparr>
              else if stricmp stylestring ''subtract'' = 0 then st\<lparr>blendstyle := AST_SUBTRACT\<rparr>
              else if stricmp stylestring ''reversesubtract'' = 0 then
                st\<lparr>blendstyle := AST_REVERSESUBTRACT\<rparr>
              else if stricmp stylestring ''modulate'' = 0 then st\<lparr>blendstyle := AST_MODULATE\<rparr>
              else st)
        else st))"

text \<open>
  The loop of \<^verbatim>\<open>Parm_Parse\<close>. An argument is an option when it starts with \<^verbatim>\<open>-\<close> and
  has a second character; the option's name is the argument without the \<^verbatim>\<open>-\<close>.
\<close>

function Parm_Parse_loop :: "string list \<Rightarrow> nat \<Rightarrow> parms \<Rightarrow> parms" where
  "Parm_Parse_loop parm_argv i st =
    (if i < length parm_argv then
       (case parm_argv ! i of
          c # d # parmstring \<Rightarrow>
            if c = CHR ''-'' then
              Parm_Parse_loop parm_argv
                (fst (Parm_ParseParameter parm_argv (d # parmstring) (i + 1) st))
                (snd (Parm_ParseParameter parm_argv (d # parmstring) (i + 1) st))
            else Parm_Parse_loop parm_argv (i + 1) st
        | _ \<Rightarrow> Parm_Parse_loop parm_argv (i + 1) st)
     else st)"
  by pat_completeness auto
termination
  by (relation "measure (\<lambda>(parm_argv, i, st). length parm_argv - i)")
    (auto simp: Parm_ParseParameter_def)

declare Parm_Parse_loop.simps [simp del]

definition Parm_Parse :: "string list \<Rightarrow> parms \<Rightarrow> parms" where
  "Parm_Parse parm_argv st = Parm_Parse_loop parm_argv 1 st"

subsection \<open>Writing the tables\<close>

text \<open>
  What the run depends on outside the program: whether \<^verbatim>\<open>malloc\<close> succeeds, what
  \<^verbatim>\<open>fopen\<close> finds under a name for reading, whether it can open a name for writing, and
  the indeterminate contents of uninitialised locals (per alpha level and table cell).
\<close>

record env =
  malloc_ok :: bool
  fopen_rb :: "string \<Rightarrow> palfile option"
  fopen_wb_ok :: "string \<Rightarrow> bool"
  output_junk :: "nat \<Rightarrow> nat \<Rightarrow> RGBA_t"

text \<open>
  What the run does that can be seen: the texts given to \<^verbatim>\<open>T_OutputMessage\<close> and
  \<^verbatim>\<open>T_OutputError\<close>, the copyright text (in full or not) and the parameter help, and
  the blocks written to files. A run ends by returning, by \<^verbatim>\<open>exit(EXIT_FAILURE)\<close>, or
  in an operation whose behaviour C leaves undefined.
\<close>

datatype event =
  Message string
  | Error_Message string
  | Copyright_Text bool
  | Parm_Info
  | Written string "8 word list"

datatype outcome = Returned | Exit_Failure | Undefined_Behaviour

definition defaultprefix :: string where
  "defaultprefix = ''TRANS''"

definition defaultoutfiles :: string where
  "defaultoutfiles = ''123456789''"

text \<open>The conversion \<^verbatim>\<open>%d\<close> of a number that is not negative.\<close>

fun decimal :: "nat \<Rightarrow> string" where
  "decimal n =
    (if n < 10 then [char_of (48 + n)] else decimal (n div 10) @ [char_of (48 + n mod 10)])"

declare decimal.simps [simp del]

text \<open>
  The loop over the characters of \<^verbatim>\<open>outfiles\<close>. The digit \<^verbatim>\<open>0\<close> selects
  \<^verbatim>\<open>canblend[-1]\<close>, a write outside the array: \<open>None\<close>.
\<close>

fun T_DoMain_canblend :: "string \<Rightarrow> int list \<Rightarrow> int list option" where
  "T_DoMain_canblend [] canblend = Some canblend"
| "T_DoMain_canblend (c # outfiles) canblend =
    (if isdigit c then
       let k = of_char c - 48 - (1 :: int)
       in if 0 \<le> k \<and> k < 9 then T_DoMain_canblend outfiles (canblend[nat k := 1]) else None
     else T_DoMain_canblend outfiles canblend)"

text \<open>
  \<^verbatim>\<open>sprintf(filename, "%s%d0.lmp", prefix, i)\<close> into a buffer of \<open>bufsize\<close> bytes. The
  characters of the name and the zero byte that ends it must fit; a write behind the
  end of the buffer is undefined in C: \<open>None\<close>.
\<close>

definition sprintf_filename :: "nat \<Rightarrow> string \<Rightarrow> nat \<Rightarrow> string option" where
  "sprintf_filename bufsize prefix i =
    (let name = prefix @ decimal i @ ''0.lmp''
     in if length name + 1 \<le> bufsize then Some name else None)"

text \<open>
  \<^verbatim>\<open>T_OutputMessage\<close> formats its arguments into \<^verbatim>\<open>out[1024]\<close> with \<^verbatim>\<open>vsnprintf\<close>, which
  keeps at most 1023 characters, and then calls \<^verbatim>\<open>fprintf(stdout, out)\<close>: the formatted
  text is a format once more, with no argument behind it. In that second pass \<^verbatim>\<open>%%\<close>
  prints \<^verbatim>\<open>%\<close>, and any other conversion is undefined: \<open>None\<close>. The argument of
  \<open>T_OutputMessage\<close> here is the text the first pass makes before it is cut; the result
  is the text printed. The other messages of the program are constant texts without
  \<^verbatim>\<open>%\<close>, which the second pass prints as they are.
\<close>

fun fprintf_noargs :: "string \<Rightarrow> string option" where
  "fprintf_noargs [] = Some []"
| "fprintf_noargs [c] = (if c = CHR ''%'' then None else Some [c])"
| "fprintf_noargs (c # d # s) =
    (if c = CHR ''%'' then
       (if d = CHR ''%'' then map_option ((#) CHR ''%'') (fprintf_noargs s) else None)
     else map_option ((#) c) (fprintf_noargs (d # s)))"

definition T_OutputMessage :: "string \<Rightarrow> string option" where
  "T_OutputMessage formatted = fprintf_noargs (take 1023 formatted)"

text \<open>
  The loop that blends every lump, from \<open>i\<close> on; \<open>bufsize\<close> is the size of the buffer
  \<^verbatim>\<open>filename\<close>. A run that leaves what C defines ends there, with what it has printed and
  written so far. The result of \<^verbatim>\<open>fopen\<close> is not tested in the source: the table is
  generated, and \<^verbatim>\<open>fwrite\<close> and \<^verbatim>\<open>fclose\<close> are called with the stream, a null pointer
  when the file could not be opened.
\<close>

function T_DoMain_blend ::
  "env \<Rightarrow> RGBA_t list \<Rightarrow> int \<Rightarrow> string \<Rightarrow> nat \<Rightarrow> int list \<Rightarrow> nat \<Rightarrow> 8 word list \<Rightarrow> event list
    \<Rightarrow> event list \<times> outcome" where
  "T_DoMain_blend e palette style prefix bufsize canblend i working out =
    (if i \<le> 9 then
       if canblend ! (i - 1) = 0 then
         T_DoMain_blend e palette style prefix bufsize canblend (i + 1) working out
       else
         (case sprintf_filename bufsize prefix i of
            None \<Rightarrow> (out, Undefined_Behaviour)
          | Some filename \<Rightarrow>
              (case T_OutputMessage (''Writing '' @ filename @ ''...'') of
                 None \<Rightarrow> (out, Undefined_Behaviour)
               | Some printed \<Rightarrow>
                   let out = out @ [Message printed];
                       fp = fopen_wb_ok e filename
                   in
                     (case T_BlendTrans palette style (output_junk e i) working (int i) of
                        None \<Rightarrow> (out, Undefined_Behaviour)
                      | Some working \<Rightarrow>
                          if \<not> fp then (out, Undefined_Behaviour)
                          else T_DoMain_blend e palette style prefix bufsize canblend (i + 1) working
                                 (out @ [Written filename working]))))
     else (out, Returned))"
  by pat_completeness auto
termination
  by (relation
      "measure (\<lambda>(e, palette, style, prefix, bufsize, canblend, i, working, out). 10 - i)") auto

declare T_DoMain_blend.simps [simp del]

text \<open>
  The array \<^verbatim>\<open>canblend\<close> after the two loops of \<^verbatim>\<open>T_DoMain\<close> that figure out which
  lump to blend: \<^verbatim>\<open>outfiles\<close> is the parameter, or the default when it is \<^verbatim>\<open>NULL\<close>.
\<close>

definition T_DoMain_lumps :: "parms \<Rightarrow> int list option" where
  "T_DoMain_lumps st =
    (let outfiles = (case parm_outfiles st of None \<Rightarrow> defaultoutfiles | Some s \<Rightarrow> s)
     in T_DoMain_canblend outfiles (replicate 9 0))"

text \<open>
  \<^verbatim>\<open>T_DoMain\<close>, from the parsed parameters, the palette and the array \<^verbatim>\<open>working\<close>
  as it stands. The buffer \<^verbatim>\<open>filename\<close> is \<^verbatim>\<open>malloc(strlen(prefix) + 6)\<close>.
\<close>

definition T_DoMain :: "env \<Rightarrow> parms \<Rightarrow> RGBA_t list \<Rightarrow> 8 word list \<Rightarrow> event list \<times> outcome" where
  "T_DoMain e st palette working =
    (let prefix = (case parm_outprefix st of None \<Rightarrow> defaultprefix | Some p \<Rightarrow> p)
     in
       if \<not> malloc_ok e then ([Error_Message ''Not enough memory for filename''], Exit_Failure)
       else
         (case T_DoMain_lumps st of
            None \<Rightarrow> ([], Undefined_Behaviour)
          | Some canblend \<Rightarrow>
              (case T_DoMain_blend e palette (blendstyle st) prefix (length prefix + 6) canblend 1
                      working [] of
                 (out, Returned) \<Rightarrow> (out @ [Message ''Done!''], Returned)
               | (out, oc) \<Rightarrow> (out, oc))))"

text \<open>The static array \<^verbatim>\<open>working[65536]\<close> at program start.\<close>

definition working_init :: "8 word list" where
  "working_init = replicate 65536 0"

text \<open>\<^verbatim>\<open>main\<close>, from the argument vector (the program's name first).\<close>

definition main :: "env \<Rightarrow> string list \<Rightarrow> event list \<times> outcome" where
  "main e argv =
    (if length argv < 2 then ([Copyright_Text True, Parm_Info], Exit_Failure)
     else
       let st = Parm_Parse argv parms_init
       in
         (case parm_palettefile st of
            None \<Rightarrow>
              ([Copyright_Text False,
                Error_Message ''Palette file not specified. Use the -palette parameter.''],
               Exit_Failure)
          | Some inpal \<Rightarrow>
              (case Pal_Read (fopen_rb e inpal) palette_init of
                 Inl msg \<Rightarrow> ([Copyright_Text False, Error_Message msg], Exit_Failure)
               | Inr palette \<Rightarrow>
                   (case T_DoMain e st palette working_init of
                      (out, oc) \<Rightarrow>
                        (Copyright_Text False
                           # Message ''Pal_Read: Read palette file successfully!'' # out,
                         oc)))))"

subsection \<open>Notions used in the statements\<close>

text \<open>
  \<open>least_min D k\<close>: among the indices below 256, \<open>k\<close> is the first at which \<open>D\<close> is
  least.
\<close>

definition least_min :: "(nat \<Rightarrow> int) \<Rightarrow> nat \<Rightarrow> bool" where
  "least_min D k \<longleftrightarrow> k < 256 \<and> (\<forall>j<256. D k \<le> D j) \<and> (\<forall>j<k. D k < D j)"

text \<open>
  The byte the inner loop of \<^verbatim>\<open>T_BlendTrans\<close> stores for background index \<open>y\<close> and
  foreground index \<open>x\<close>, when the call of \<^verbatim>\<open>ASTBlendPixel\<close> starts from \<open>out\<close>.
\<close>

definition cell :: "RGBA_t list \<Rightarrow> int \<Rightarrow> 8 word \<Rightarrow> RGBA_t \<Rightarrow> nat \<Rightarrow> nat \<Rightarrow> 8 word" where
  "cell P s a out y x =
    (let result = ASTBlendPixel (P ! y) (P ! x) s a out
     in NearestPaletteColor P (red result) (green result) (blue result))"



section \<open>Properties\<close>

subsection \<open>Bytes\<close>

lemmas AST_defs =
  AST_TRANSLUCENT_def AST_ADD_def AST_SUBTRACT_def AST_REVERSESUBTRACT_def AST_MODULATE_def

lemma uint_byte_le: "uint (x :: 8 word) \<le> 255"
  using uint_lt2p [of x] by simp

lemma uint_byte_bounds: "0 \<le> uint (x :: 8 word) \<and> uint x \<le> 255"
  by (simp add: uint_byte_le)

lemma uint_byte_of_int: "0 \<le> k \<Longrightarrow> k \<le> 255 \<Longrightarrow> uint (word_of_int k :: 8 word) = k"
  by (simp add: uint_word_of_int)

lemma uint_255_minus: "uint (255 - x :: 8 word) = 255 - uint x"
proof -
  have "uint (255 - x) = (255 - uint x) mod 256"
    by (simp add: uint_word_ariths)
  also have "\<dots> = 255 - uint x"
  proof (rule mod_pos_pos_trivial)
    show "0 \<le> 255 - uint x" using uint_byte_le [of x] by linarith
    show "255 - uint x < 256" using uint_ge_0 [of x] by linarith
  qed
  finally show ?thesis .
qed

lemma uint_clamp: "uint (word_of_int (clamp c) :: 8 word) = clamp c"
  by (intro uint_byte_of_int) (auto simp: clamp_def)

subsection \<open>Single precision is exact on small dyadic numbers\<close>

lemma pow2_powi: "pow2 e = 2 powi e"
  by (simp add: pow2_def power_int_def inverse_eq_divide power_one_over)

lemma pow2_pos: "0 < pow2 e"
  by (simp add: pow2_powi zero_less_power_int)

lemma pow2_add: "pow2 (a + b) = pow2 a * pow2 b"
  by (simp add: pow2_powi power_int_add)

lemma pow2_less_cancel: "pow2 a < pow2 b \<Longrightarrow> a < b"
proof (rule ccontr)
  assume "pow2 a < pow2 b" "\<not> a < b"
  then have "b \<le> a" by simp
  then have "pow2 b \<le> pow2 a" unfolding pow2_powi by (intro power_int_increasing) auto
  with \<open>pow2 a < pow2 b\<close> show False by simp
qed

lemma pow2_nat: "0 \<le> e \<Longrightarrow> pow2 e = of_int (2 ^ nat e)"
  by (simp add: pow2_def)

text \<open>The exponent that \<open>f32_ilog2\<close> finds is not too large.\<close>

lemma f32_ilog2_le:
  assumes "0 < x"
  shows "pow2 (f32_ilog2 x) \<le> x"
proof -
  obtain p q where pq: "quotient_of x = (p, q)" by (cases "quotient_of x")
  have q: "0 < q" using pq by (rule quotient_of_denom_pos)
  have x: "x = of_int p / of_int q" using pq by (rule quotient_of_div)
  have p: "0 < p" using assms q unfolding x by (simp add: zero_less_divide_iff)
  define d where "d = bitlen p - bitlen q"
  show ?thesis
  proof (cases "pow2 d \<le> x")
    case True
    then show ?thesis by (simp add: f32_ilog2_def pq d_def Let_def)
  next
    case False
    have bp: "1 \<le> bitlen p" using p bitlen_eq_zero_iff [of p] bitlen_nonneg [of p] by linarith
    have lo: "(2::int) ^ nat (bitlen p - 1) \<le> p" using bitlen_bounds [OF p] by simp
    have hi: "q < 2 ^ nat (bitlen q)" using bitlen_bounds [OF q] by simp
    have "pow2 (bitlen p - 1) \<le> of_int p"
      using lo bp by (simp add: pow2_nat of_int_le_iff [symmetric] del: of_int_le_iff)
    moreover have "of_int q \<le> pow2 (bitlen q)"
      using hi bitlen_nonneg [of q]
      by (simp add: pow2_nat of_int_le_iff [symmetric] del: of_int_le_iff)
    ultimately have "pow2 (bitlen p - 1) * of_int q \<le> of_int p * pow2 (bitlen q)"
      using q p pow2_pos by (intro mult_mono) auto
    then have "pow2 (bitlen p - 1) / pow2 (bitlen q) \<le> of_int p / of_int q"
      using q pow2_pos [of "bitlen q"] by (simp add: field_simps)
    moreover have "pow2 (d - 1) = pow2 (bitlen p - 1) / pow2 (bitlen q)"
      unfolding d_def pow2_powi by (simp add: power_int_diff)
    ultimately have "pow2 (d - 1) \<le> x" using x by simp
    with False show ?thesis by (simp add: f32_ilog2_def pq d_def Let_def)
  qed
qed

text \<open>Nor too small: \<open>f32_ilog2 x\<close> is the binary exponent of \<open>x\<close>.\<close>

lemma f32_ilog2_less:
  assumes "0 < x"
  shows "x < pow2 (f32_ilog2 x + 1)"
proof -
  obtain p q where pq: "quotient_of x = (p, q)" by (cases "quotient_of x")
  have q: "0 < q" using pq by (rule quotient_of_denom_pos)
  have x: "x = of_int p / of_int q" using pq by (rule quotient_of_div)
  have p: "0 < p" using assms q unfolding x by (simp add: zero_less_divide_iff)
  define d where "d = bitlen p - bitlen q"
  show ?thesis
  proof (cases "pow2 d \<le> x")
    case False
    then show ?thesis by (simp add: f32_ilog2_def pq d_def Let_def)
  next
    case True
    have bq: "1 \<le> bitlen q" using q bitlen_eq_zero_iff [of q] bitlen_nonneg [of q] by linarith
    have hi: "p < 2 ^ nat (bitlen p)" using bitlen_bounds [OF p] by simp
    have lo: "(2::int) ^ nat (bitlen q - 1) \<le> q" using bitlen_bounds [OF q] by simp
    have "of_int p < pow2 (bitlen p)"
      using hi bitlen_nonneg [of p]
      by (simp add: pow2_nat of_int_less_iff [symmetric] del: of_int_less_iff)
    moreover have "pow2 (bitlen q - 1) \<le> of_int q"
      using lo bq by (simp add: pow2_nat of_int_le_iff [symmetric] del: of_int_le_iff)
    ultimately have "of_int p * pow2 (bitlen q - 1) < pow2 (bitlen p) * of_int q"
      using q p pow2_pos [of "bitlen q - 1"] pow2_pos [of "bitlen p"]
      by (intro mult_less_le_imp_less) auto
    then have "of_int p / of_int q < pow2 (bitlen p) / pow2 (bitlen q - 1)"
      using q pow2_pos [of "bitlen q - 1"] by (simp add: field_simps)
    moreover have "pow2 (d + 1) = pow2 (bitlen p) / pow2 (bitlen q - 1)"
    proof -
      have "d + 1 = bitlen p - (bitlen q - 1)" by (simp add: d_def)
      moreover have "(2 :: rat) powi (bitlen p - (bitlen q - 1))
          = 2 powi bitlen p / 2 powi (bitlen q - 1)"
        by (rule power_int_diff) simp
      ultimately show ?thesis by (simp only: pow2_powi)
    qed
    ultimately have "x < pow2 (d + 1)" using x by simp
    with True show ?thesis by (simp add: f32_ilog2_def pq d_def Let_def)
  qed
qed

lemma round_even_of_int: "round_even (of_int k) = k"
  by (simp add: round_even_def)

text \<open>
  A number \<open>m \<sqdot> 2\<^sup>e\<close> with \<open>\<bar>m\<bar> < 2\<^sup>2\<^sup>4\<close> is a binary32 value: rounding leaves it as
  it is.
\<close>

lemma f32_exact:
  assumes m: "\<bar>m\<bar> < 2 ^ 24" and e: "- 149 \<le> e"
  shows "f32 (of_int m * pow2 e) = of_int m * pow2 e"
proof (cases "m = 0")
  case True
  then show ?thesis by (simp add: f32_def)
next
  case False
  define x where "x = rat_of_int m * pow2 e"
  define a where "a = \<bar>x\<bar>"
  have a: "a = of_int \<bar>m\<bar> * pow2 e" using pow2_pos [of e] by (simp add: a_def x_def abs_mult)
  have apos: "0 < a" using False pow2_pos [of e] by (simp add: a)
  have xne: "x \<noteq> 0" using apos by (auto simp: a_def)
  define E where "E = f32_ilog2 a"
  define qe where "qe = max (E - 23) (- 149)"
  have "pow2 E \<le> a" unfolding E_def using apos by (rule f32_ilog2_le)
  also have "a < of_int (2 ^ 24) * pow2 e"
    unfolding a using m pow2_pos [of e]
    by (intro mult_strict_right_mono) (auto simp del: of_int_power of_int_numeral)
  also have "rat_of_int (2 ^ 24) = pow2 24" by (simp add: pow2_def)
  also have "pow2 24 * pow2 e = pow2 (24 + e)" by (simp only: pow2_add)
  finally have "E < 24 + e" by (rule pow2_less_cancel)
  then have qe: "qe \<le> e" using e by (simp add: qe_def)
  have split: "pow2 e = pow2 (e - qe) * pow2 qe" by (simp flip: pow2_add)
  have "a / pow2 qe = of_int \<bar>m\<bar> * pow2 (e - qe)"
    using pow2_pos [of qe] by (simp add: a split)
  also have "\<dots> = of_int (\<bar>m\<bar> * 2 ^ nat (e - qe))" using qe by (simp add: pow2_nat)
  finally have "round_even (a / pow2 qe) = \<bar>m\<bar> * 2 ^ nat (e - qe)"
    by (simp only: round_even_of_int)
  then have "f32 x = sgn x * of_int (\<bar>m\<bar> * 2 ^ nat (e - qe)) * pow2 qe"
    using xne by (simp add: f32_def Let_def a_def [symmetric] E_def [symmetric] qe_def [symmetric])
  also have "of_int (\<bar>m\<bar> * 2 ^ nat (e - qe)) = of_int \<bar>m\<bar> * pow2 (e - qe)"
    using qe by (simp add: pow2_nat)
  also have "sgn x * (of_int \<bar>m\<bar> * pow2 (e - qe)) * pow2 qe = sgn x * a"
    by (simp add: a split)
  also have "\<dots> = x" by (simp add: a_def sgn_mult_abs)
  finally show ?thesis by (simp add: x_def)
qed

lemma float_of_int_exact: "\<bar>i\<bar> < 2 ^ 24 \<Longrightarrow> float_of_int i = of_int i"
  using f32_exact [of i 0] by (simp add: float_of_int_def pow2_def)

lemma f32_exact_256: "\<bar>m\<bar> < 2 ^ 24 \<Longrightarrow> f32 (of_int m / 256) = of_int m / 256"
  using f32_exact [of m "- 8"] by (simp add: pow2_def)

lemma floor_rat_numeral_div: "\<lfloor>(numeral a :: rat) / numeral b\<rfloor> = numeral a div numeral b"
  using floor_divide_of_int_eq [of "numeral a" "numeral b", where ?'a = rat] by simp

subsection \<open>The translucent style\<close>

lemma blend_channel_bound:
  assumes "0 \<le> b" "b \<le> 255" "0 \<le> f" "f \<le> 255" "0 \<le> e" "e \<le> 255"
  shows "0 \<le> (b * (255 - e) + f * e) div 255 \<and> (b * (255 - e) + f * e) div (255::int) \<le> 255"
proof -
  have 1: "b * (255 - e) \<le> 255 * (255 - e)" using assms by (intro mult_right_mono) auto
  have 2: "f * e \<le> 255 * e" using assms by (intro mult_right_mono) auto
  have 3: "0 \<le> b * (255 - e)" "0 \<le> f * e" using assms by auto
  from 1 2 have "b * (255 - e) + f * e \<le> 255 * 255" by simp
  then have "(b * (255 - e) + f * e) div 255 \<le> 255" by simp
  moreover have "0 \<le> (b * (255 - e) + f * e) div 255" using 3 by simp
  ultimately show ?thesis by simp
qed

text \<open>The blending branch, with the bytes \<^verbatim>\<open>alpha\<close> and \<^verbatim>\<open>beta\<close> read as integers.\<close>

lemma ASTBlendPixel_translucent_pos:
  fixes a :: "8 word"
  assumes "0 < uint a - (255 - uint (alpha fg))"
  defines "e \<equiv> min (uint a - (255 - uint (alpha fg))) 255"
  shows "ASTBlendPixel bg fg AST_TRANSLUCENT a out =
    (if alpha bg = 0 then out\<lparr>alpha := 0\<rparr>
     else out\<lparr>
       red := word_of_int ((uint (red bg) * (255 - e) + uint (red fg) * e) div 255),
       green := word_of_int ((uint (green bg) * (255 - e) + uint (green fg) * e) div 255),
       blue := word_of_int ((uint (blue bg) * (255 - e) + uint (blue fg) * e) div 255),
       alpha := 255\<rparr>)"
proof -
  define fa where "fa = uint a - (255 - uint (alpha fg))"
  have fa: "0 < fa" "fa \<le> 255"
    using assms(1) uint_byte_bounds [of a] uint_byte_bounds [of "alpha fg"] by (auto simp: fa_def)
  have e: "e = fa" using fa by (simp add: e_def fa_def)
  define a1 :: "8 word" where "a1 = word_of_int fa"
  have ua1: "uint a1 = fa" unfolding a1_def using fa by (intro uint_byte_of_int) auto
  have ub: "uint (255 - a1) = 255 - fa" by (simp add: uint_255_minus ua1)
  have "ASTBlendPixel bg fg AST_TRANSLUCENT a out =
    (if alpha bg = 0 then out\<lparr>alpha := 0\<rparr>
     else out\<lparr>
       red := word_of_int ((uint (red bg) * uint (255 - a1) + uint (red fg) * uint a1) div 255),
       green := word_of_int
         ((uint (green bg) * uint (255 - a1) + uint (green fg) * uint a1) div 255),
       blue := word_of_int ((uint (blue bg) * uint (255 - a1) + uint (blue fg) * uint a1) div 255),
       alpha := 255\<rparr>)"
    unfolding ASTBlendPixel_def Let_def fa_def [symmetric]
    using fa by (simp add: a1_def)
  then show ?thesis by (simp only: ub ua1 e)
qed

text \<open>
  C2. In the translucent style with a positive effective alpha
  \<open>alpha_byte - (255 - foreground.alpha)\<close>: when the background's alpha is not zero,
  every colour channel of the result is
  \<open>(background * beta + foreground * effective) div 255\<close>, where \<open>effective\<close> is
  capped at 255 and \<open>beta = 255 - effective\<close>, and the result's alpha is 255; when the
  background's alpha is zero, the result's alpha is zero (nothing is said about its
  colour channels, which are whatever the uninitialised \<^verbatim>\<open>output\<close> held).
\<close>

theorem ASTBlendPixel_translucent_blend:
  assumes "0 < uint a - (255 - uint (alpha fg))"
  shows "(alpha bg \<noteq> 0 \<longrightarrow>
           (let effective = min (uint a - (255 - uint (alpha fg))) 255;
                beta = 255 - effective;
                result = ASTBlendPixel bg fg AST_TRANSLUCENT a out
            in uint (red result) = (uint (red bg) * beta + uint (red fg) * effective) div 255
             \<and> uint (green result) = (uint (green bg) * beta + uint (green fg) * effective) div 255
             \<and> uint (blue result) = (uint (blue bg) * beta + uint (blue fg) * effective) div 255
             \<and> alpha result = 255))
       \<and> (alpha bg = 0 \<longrightarrow> alpha (ASTBlendPixel bg fg AST_TRANSLUCENT a out) = 0)"
proof -
  define e where "e = min (uint a - (255 - uint (alpha fg))) 255"
  have e: "0 \<le> e" "e \<le> 255" using assms by (auto simp: e_def)
  have ch: "uint (word_of_int ((uint c * (255 - e) + uint d * e) div 255) :: 8 word)
      = (uint c * (255 - e) + uint d * e) div 255" for c d :: "8 word"
    using blend_channel_bound [of "uint c" "uint d" e]
      uint_byte_bounds [of c] uint_byte_bounds [of d] e
    by (intro uint_byte_of_int) auto
  show ?thesis
    unfolding Let_def ASTBlendPixel_translucent_pos [OF assms] e_def [symmetric]
    by (simp add: ch)
qed

theorem ASTBlendPixel_translucent_blend_witness:
  "0 < uint (128 :: 8 word) - (255 - uint (alpha \<lparr>red = 200, green = 100, blue = 50, alpha = 255\<rparr>))
   \<and> alpha \<lparr>red = 10, green = 20, blue = 30, alpha = 255 :: 8 word\<rparr> \<noteq> 0
   \<and> uint (red (ASTBlendPixel \<lparr>red = 10, green = 20, blue = 30, alpha = 255\<rparr>
        \<lparr>red = 200, green = 100, blue = 50, alpha = 255\<rparr> AST_TRANSLUCENT 128
        \<lparr>red = 1, green = 2, blue = 3, alpha = 4\<rparr>)) = 105
   \<and> alpha (ASTBlendPixel \<lparr>red = 10, green = 20, blue = 30, alpha = 255\<rparr>
        \<lparr>red = 200, green = 100, blue = 50, alpha = 255\<rparr> AST_TRANSLUCENT 128
        \<lparr>red = 1, green = 2, blue = 3, alpha = 4\<rparr>) = 255
   \<and> alpha \<lparr>red = 10, green = 20, blue = 30, alpha = 0 :: 8 word\<rparr> = 0
   \<and> alpha (ASTBlendPixel \<lparr>red = 10, green = 20, blue = 30, alpha = 0\<rparr>
        \<lparr>red = 200, green = 100, blue = 50, alpha = 255\<rparr> AST_TRANSLUCENT 128
        \<lparr>red = 1, green = 2, blue = 3, alpha = 4\<rparr>) = 0"
  using
    ASTBlendPixel_translucent_blend [of 128 "\<lparr>red = 200, green = 100, blue = 50, alpha = 255\<rparr>"
      "\<lparr>red = 10, green = 20, blue = 30, alpha = 255\<rparr>" "\<lparr>red = 1, green = 2, blue = 3, alpha = 4\<rparr>"]
    ASTBlendPixel_translucent_blend [of 128 "\<lparr>red = 200, green = 100, blue = 50, alpha = 255\<rparr>"
      "\<lparr>red = 10, green = 20, blue = 30, alpha = 0\<rparr>" "\<lparr>red = 1, green = 2, blue = 3, alpha = 4\<rparr>"]
  by (simp add: Let_def)

text \<open>
  C5. In the translucent style, when the effective alpha
  \<open>alpha_byte - (255 - foreground.alpha)\<close> is zero or less, the result is the
  background colour, all four channels; so it is for the alpha byte 0, whatever the
  foreground.
\<close>

theorem ASTBlendPixel_translucent_background:
  "(uint a - (255 - uint (alpha fg)) \<le> 0 \<longrightarrow> ASTBlendPixel bg fg AST_TRANSLUCENT a out = bg)
   \<and> ASTBlendPixel bg fg AST_TRANSLUCENT 0 out = bg"
  using uint_byte_bounds [of "alpha fg"]
  by (simp add: ASTBlendPixel_def Let_def)

theorem ASTBlendPixel_translucent_background_witness:
  "uint (26 :: 8 word) - (255 - uint (alpha \<lparr>red = 200, green = 100, blue = 50, alpha = 100\<rparr>)) \<le> 0
   \<and> ASTBlendPixel \<lparr>red = 10, green = 20, blue = 30, alpha = 255\<rparr>
        \<lparr>red = 200, green = 100, blue = 50, alpha = 100\<rparr> AST_TRANSLUCENT 26
        \<lparr>red = 1, green = 2, blue = 3, alpha = 4\<rparr>
      = \<lparr>red = 10, green = 20, blue = 30, alpha = 255\<rparr>"
  using ASTBlendPixel_translucent_background [of 26
      "\<lparr>red = 200, green = 100, blue = 50, alpha = 100\<rparr>"
      "\<lparr>red = 10, green = 20, blue = 30, alpha = 255\<rparr>" "\<lparr>red = 1, green = 2, blue = 3, alpha = 4\<rparr>"]
  by simp

subsection \<open>The other styles\<close>

text \<open>
  C7. In each of the styles add, subtract, reverse subtract and modulate the result's
  alpha is 255, whatever the colours and the alpha byte.
\<close>

theorem ASTBlendPixel_opaque_styles:
  "alpha (ASTBlendPixel bg fg AST_ADD a out) = 255
   \<and> alpha (ASTBlendPixel bg fg AST_SUBTRACT a out) = 255
   \<and> alpha (ASTBlendPixel bg fg AST_REVERSESUBTRACT a out) = 255
   \<and> alpha (ASTBlendPixel bg fg AST_MODULATE a out) = 255"
  by (simp add: ASTBlendPixel_def AST_defs Let_def)

lemma modulate_float_int:
  assumes "0 \<le> B" "B \<le> 255" "0 \<le> F" "F \<le> 255"
  shows "fmul (float_of_int B) (fdiv (float_of_int F) 256) = of_int B * (of_int F / 256)"
proof -
  have fb: "float_of_int B = of_int B" using assms by (intro float_of_int_exact) auto
  have ff: "float_of_int F = of_int F" using assms by (intro float_of_int_exact) auto
  have fd: "fdiv (of_int F) 256 = of_int F / 256"
    unfolding fdiv_def using assms by (intro f32_exact_256) auto
  have "B * F \<le> 255 * 255" using assms by (intro mult_mono) auto
  moreover have "0 \<le> B * F" using assms by simp
  ultimately have "f32 (of_int (B * F) / 256) = of_int (B * F) / 256"
    by (intro f32_exact_256) auto
  then show ?thesis by (simp add: fb ff fd fmul_def)
qed

lemma modulate_float:
  "fmul (float_of_int (uint (b :: 8 word))) (fdiv (float_of_int (uint (f :: 8 word))) 256)
     = of_int (uint b) * (of_int (uint f) / 256)"
  by (rule modulate_float_int) (simp_all add: uint_byte_le)

lemma modulate_div_int:
  assumes "0 \<le> B" "B \<le> 255" "0 \<le> F" "F \<le> 255"
  shows "clamp (int_of_float (of_int B * (of_int F / 256))) = B * F div 256"
proof -
  have le: "B * F \<le> 255 * 255" using assms by (intro mult_mono) auto
  have ge: "0 \<le> B * F" using assms by simp
  have "rat_of_int B * (of_int F / 256) = of_int (B * F) / of_int 256" by simp
  moreover have "0 \<le> rat_of_int B * (of_int F / 256)" using assms by simp
  ultimately have "int_of_float (of_int B * (of_int F / 256)) = B * F div 256"
    unfolding int_of_float_def by (simp only: floor_divide_of_int_eq if_True)
  moreover have "0 \<le> B * F div 256" "B * F div 256 \<le> 255" using le ge by auto
  ultimately show ?thesis by (simp add: clamp_def)
qed

lemma modulate_div:
  "clamp (int_of_float (of_int (uint (b :: 8 word)) * (of_int (uint (f :: 8 word)) / 256)))
     = uint b * uint f div 256"
  by (rule modulate_div_int) (simp_all add: uint_byte_le)

text \<open>
  C6. In the modulate style the alpha byte plays no part: two calls on the same
  colours give the same result, whatever their alpha bytes. Every colour channel of
  the result is the background's channel times the foreground's channel over 256,
  the fraction discarded, then clamped to \<open>[0, 255]\<close>; the single-precision computation
  of the source gives exactly this value, which is \<open>background * foreground div 256\<close>.
\<close>

theorem ASTBlendPixel_modulate:
  "ASTBlendPixel bg fg AST_MODULATE a out = ASTBlendPixel bg fg AST_MODULATE a' out'
   \<and> (let result = ASTBlendPixel bg fg AST_MODULATE a out in
        uint (red result)
          = clamp (int_of_float (of_int (uint (red bg)) * (of_int (uint (red fg)) / 256)))
      \<and> uint (green result)
          = clamp (int_of_float (of_int (uint (green bg)) * (of_int (uint (green fg)) / 256)))
      \<and> uint (blue result)
          = clamp (int_of_float (of_int (uint (blue bg)) * (of_int (uint (blue fg)) / 256)))
      \<and> uint (red result) = uint (red bg) * uint (red fg) div 256
      \<and> uint (green result) = uint (green bg) * uint (green fg) div 256
      \<and> uint (blue result) = uint (blue bg) * uint (blue fg) div 256)"
proof -
  have r: "ASTBlendPixel bg fg AST_MODULATE x y =
    \<lparr>red = word_of_int
       (clamp (int_of_float (of_int (uint (red bg)) * (of_int (uint (red fg)) / 256)))),
     green = word_of_int
       (clamp (int_of_float (of_int (uint (green bg)) * (of_int (uint (green fg)) / 256)))),
     blue = word_of_int
       (clamp (int_of_float (of_int (uint (blue bg)) * (of_int (uint (blue fg)) / 256)))),
     alpha = 255\<rparr>" for x y
    unfolding ASTBlendPixel_def Let_def modulate_float
    by (cases y) (simp add: AST_defs)
  show ?thesis
    unfolding Let_def r RGBA_t.simps uint_clamp by (simp only: modulate_div simp_thms)
qed

subsection \<open>The alpha byte of a level\<close>

lemma blendamt_values:
  "T_BlendTrans_blendamt 1 = Some 25" "T_BlendTrans_blendamt 2 = Some 51"
  "T_BlendTrans_blendamt 3 = Some 76" "T_BlendTrans_blendamt 4 = Some 102"
  "T_BlendTrans_blendamt 5 = Some 128" "T_BlendTrans_blendamt 6 = Some 153"
  "T_BlendTrans_blendamt 7 = Some 179" "T_BlendTrans_blendamt 8 = Some 204"
  "T_BlendTrans_blendamt 9 = Some 230"
  by code_simp+

lemma level_cases: "1 \<le> t \<Longrightarrow> t \<le> 9 \<Longrightarrow> t \<in> {1, 2, 3, 4, 5, 6, 7, 8, 9 :: int}"
  by auto

text \<open>
  C4, as stated, fails: for level 1 the alpha byte is 25, and \<open>round (1 \<sqdot> 25.6)\<close> is 26.
\<close>

theorem T_BlendTrans_blendamt_not_rounded:
  "T_BlendTrans_blendamt 1 = Some 25
   \<and> (word_of_int (round (rat_of_int 1 * (256 / 10))) :: 8 word) = 26
   \<and> T_BlendTrans_blendamt 1 \<noteq> Some (word_of_int (round (rat_of_int 1 * (256 / 10))))"
  by (simp add: blendamt_values round_def floor_rat_numeral_div)

text \<open>
  C4, amended. For every alpha level from 1 to 9 the alpha byte is \<open>level \<sqdot> 25.6\<close>
  with the fraction discarded: 25, 51, 76, 102, 128, 153, 179, 204, 230.
\<close>

theorem T_BlendTrans_blendamt_truncates:
  assumes "1 \<le> t" "t \<le> 9"
  shows "T_BlendTrans_blendamt t = Some (word_of_int \<lfloor>rat_of_int t * (256 / 10)\<rfloor>)
    \<and> map_option unat (T_BlendTrans_blendamt t)
        = Some ([25, 51, 76, 102, 128, 153, 179, 204, 230] ! nat (t - 1))"
  using level_cases [OF assms]
  by (elim insertE emptyE) (simp_all add: blendamt_values floor_rat_numeral_div)

theorem T_BlendTrans_blendamt_truncates_witness:
  "(1 :: int) \<le> 9 \<and> (9 :: int) \<le> 9 \<and> T_BlendTrans_blendamt 9 = Some 230"
  using T_BlendTrans_blendamt_truncates [of 9]
  by (simp add: floor_rat_numeral_div)

subsection \<open>Nearest palette colour\<close>

lemma sq_le_255: "\<bar>x\<bar> \<le> 255 \<Longrightarrow> x * x \<le> (65025 :: int)"
proof -
  assume a: "\<bar>x\<bar> \<le> 255"
  have "x * x = \<bar>x\<bar> * \<bar>x\<bar>" by simp
  also have "\<dots> \<le> 255 * 255" using a by (intro mult_mono) auto
  finally show ?thesis by simp
qed

lemma byte_diff_sq: "(uint (x :: 8 word) - uint (y :: 8 word)) * (uint x - uint y) \<le> 65025"
proof (rule sq_le_255)
  show "\<bar>uint x - uint y\<bar> \<le> 255"
    using uint_byte_le [of x] uint_byte_le [of y] uint_ge_0 [of x] uint_ge_0 [of y] by linarith
qed

lemma distortion_le: "distortion pal r g b i \<le> 195075"
  using byte_diff_sq [of r "red (pal ! i)"] byte_diff_sq [of g "green (pal ! i)"]
    byte_diff_sq [of b "blue (pal ! i)"]
  by (simp add: distortion_def Let_def)

lemma distortion_ge: "0 \<le> distortion pal r g b i"
  by (simp add: distortion_def Let_def)

lemma distortion_zero_iff:
  "distortion pal r g b i = 0 \<longleftrightarrow> red (pal ! i) = r \<and> green (pal ! i) = g \<and> blue (pal ! i) = b"
proof -
  have "x * x + y * y + z * z = 0 \<longleftrightarrow> x = 0 \<and> y = 0 \<and> z = 0" for x y z :: int
    by (metis add_nonneg_eq_0_iff zero_le_square mult_eq_0_iff add_nonneg_nonneg)
  then show ?thesis
    by (auto simp: distortion_def Let_def intro: word_uint_eqI)
qed

lemma unat_of_nat_byte: "k < 256 \<Longrightarrow> unat (of_nat k :: 8 word) = k"
  by (simp add: unat_of_nat)

lemma nearest_loop_least_min:
  assumes "i \<le> 256" "0 < best" "\<forall>j<i. best \<le> distortion pal r g b j"
    "i = 0 \<longrightarrow> 195075 < best"
    "0 < i \<longrightarrow> bc < i \<and> best = distortion pal r g b bc \<and> (\<forall>j<bc. best < distortion pal r g b j)"
  shows "least_min (distortion pal r g b) (unat (NearestPaletteColor_loop pal r g b i best bc))"
  using assms
proof (induction pal r g b i best bc rule: NearestPaletteColor_loop.induct)
  case (1 pal r g b i best bc)
  let ?D = "distortion pal r g b"
  show ?case
  proof (cases "i < 256")
    case False
    with "1.prems" have i: "i = 256" by simp
    have "NearestPaletteColor_loop pal r g b i best bc = of_nat bc"
      using False by (simp add: NearestPaletteColor_loop.simps [of pal r g b i])
    moreover have bc: "bc < 256" "best = ?D bc" "\<forall>j<bc. best < ?D j"
      using "1.prems"(5) i by auto
    moreover have "\<forall>j<256. best \<le> ?D j" using "1.prems"(3) i by simp
    ultimately show ?thesis
      by (simp add: least_min_def unat_of_nat_byte)
  next
    case True
    show ?thesis
    proof (cases "?D i < best")
      case less: True
      show ?thesis
      proof (cases "?D i = 0")
        case z: True
        have "NearestPaletteColor_loop pal r g b i best bc = of_nat i"
          using True less z by (simp add: NearestPaletteColor_loop.simps [of pal r g b i])
        moreover have "\<forall>j<256. ?D i \<le> ?D j" using z distortion_ge by simp
        moreover have "\<forall>j<i. ?D i < ?D j" using "1.prems"(3) less by fastforce
        ultimately show ?thesis using True by (simp add: least_min_def unat_of_nat_byte)
      next
        case nz: False
        have eq: "NearestPaletteColor_loop pal r g b i best bc
            = NearestPaletteColor_loop pal r g b (i + 1) (?D i) i"
          using True less nz by (simp add: NearestPaletteColor_loop.simps [of pal r g b i])
        have pos: "0 < ?D i" using nz distortion_ge [of pal r g b i] by linarith
        have all: "\<forall>j<i + 1. ?D i \<le> ?D j"
        proof (intro allI impI)
          fix j assume "j < i + 1"
          then consider "j < i" | "j = i" by linarith
          then show "?D i \<le> ?D j" using "1.prems"(3) less by cases fastforce+
        qed
        have strict: "\<forall>j<i. ?D i < ?D j" using "1.prems"(3) less by fastforce
        show ?thesis unfolding eq
          by (rule "1.IH"(1) [OF True less nz]) (use True pos all strict in auto)
      qed
    next
      case nless: False
      have eq: "NearestPaletteColor_loop pal r g b i best bc
          = NearestPaletteColor_loop pal r g b (i + 1) best bc"
        using True nless by (simp add: NearestPaletteColor_loop.simps [of pal r g b i])
      have ipos: "0 < i"
      proof (rule ccontr)
        assume "\<not> 0 < i"
        then have "195075 < best" using "1.prems"(4) by simp
        with distortion_le [of pal r g b i] nless show False by linarith
      qed
      have all: "\<forall>j<i + 1. best \<le> ?D j"
      proof (intro allI impI)
        fix j assume "j < i + 1"
        then consider "j < i" | "j = i" by linarith
        then show "best \<le> ?D j" using "1.prems"(3) nless by cases fastforce+
      qed
      show ?thesis unfolding eq
        by (rule "1.IH"(2) [OF True nless]) (use True "1.prems" ipos all in auto)
    qed
  qed
qed

lemma NearestPaletteColor_least_min:
  "least_min (distortion pal r g b) (unat (NearestPaletteColor pal r g b))"
  unfolding NearestPaletteColor_def
  by (rule nearest_loop_least_min) auto

subsection \<open>The palette and the table\<close>

lemma Pal_Read_loop_length: "length (Pal_Read_loop rp i j pal) = length pal"
proof (induction rp i j pal rule: Pal_Read_loop.induct)
  case (1 rp i j pal)
  then show ?case by (simp add: Pal_Read_loop.simps [of rp i j pal])
qed

lemma Pal_Read_loop_nth:
  assumes "j = 3 * i" "k < length pal"
  shows "Pal_Read_loop rp i j pal ! k =
    (if i \<le> k \<and> k < 256 then
       (pal ! k)\<lparr>red := rp ! (3 * k), green := rp ! (3 * k + 1), blue := rp ! (3 * k + 2),
         alpha := 255\<rparr>
     else pal ! k)"
  using assms
proof (induction rp i j pal rule: Pal_Read_loop.induct)
  case (1 rp i j pal)
  show ?case
  proof (cases "j < PALSIZE")
    case False
    then have "256 \<le> i" using "1.prems" by (simp add: PALSIZE_def)
    with False show ?thesis by (auto simp: Pal_Read_loop.simps [of rp i j pal])
  next
    case True
    then have i: "i < 256" using "1.prems" by (simp add: PALSIZE_def)
    let ?pal = "pal[i := (pal ! i)\<lparr>red := rp ! j, green := rp ! (j + 1), blue := rp ! (j + 2),
      alpha := 255\<rparr>]"
    have "Pal_Read_loop rp i j pal ! k = Pal_Read_loop rp (i + 1) (j + 3) ?pal ! k"
      using True by (simp add: Pal_Read_loop.simps [of rp i j pal])
    also have "\<dots> = (if i + 1 \<le> k \<and> k < 256 then
       (?pal ! k)\<lparr>red := rp ! (3 * k), green := rp ! (3 * k + 1), blue := rp ! (3 * k + 2),
         alpha := 255\<rparr>
     else ?pal ! k)"
      using "1.prems" by (intro "1.IH" [OF True]) auto
    also have "\<dots> = (if i \<le> k \<and> k < 256 then
       (pal ! k)\<lparr>red := rp ! (3 * k), green := rp ! (3 * k + 1), blue := rp ! (3 * k + 2),
         alpha := 255\<rparr>
     else pal ! k)"
      using "1.prems" i by (cases "k = i") (auto simp: nth_list_update)
    finally show ?thesis .
  qed
qed

lemma Pal_Read_opaque:
  assumes "Pal_Read fp pal0 = Inr P" "length pal0 = PALSIZE" "k < 256"
  shows "alpha (P ! k) = 255"
proof -
  have "\<exists>rp. P = Pal_Read_loop rp 0 0 pal0"
    using assms(1) by (auto simp: Pal_Read_def split: option.splits if_splits)
  then obtain rp where P: "P = Pal_Read_loop rp 0 0 pal0" ..
  have "k < length pal0" using assms by (simp add: PALSIZE_def)
  then show ?thesis unfolding P using assms(3) by (simp add: Pal_Read_loop_nth)
qed

lemma ASTBlendPixel_junk_free:
  assumes "alpha bg \<noteq> 0"
    "style \<in> {AST_TRANSLUCENT, AST_ADD, AST_SUBTRACT, AST_REVERSESUBTRACT, AST_MODULATE}"
  shows "ASTBlendPixel bg fg style a out = ASTBlendPixel bg fg style a out'"
  using assms by (cases out; cases out') (auto simp: ASTBlendPixel_def Let_def AST_defs)

lemma T_BlendTrans_x_length: "length (T_BlendTrans_x P s a J y x w) = length w"
proof (induction P s a J y x w rule: T_BlendTrans_x.induct)
  case (1 P s a J y x w)
  then show ?case by (simp add: T_BlendTrans_x.simps [of P s a J y x w] Let_def)
qed

lemma T_BlendTrans_x_step:
  assumes "x < 256" "y < 256"
  shows "T_BlendTrans_x P s a J y x w =
    T_BlendTrans_x P s a J y (x + 1) (w[y * 256 + x := cell P s a (J (y * 256 + x)) y x])"
  using assms
  by (simp add: T_BlendTrans_x.simps [of P s a J y x w] Let_def cell_def unat_of_nat_byte)

lemma T_BlendTrans_x_nth:
  assumes "y < 256" "y * 256 + 256 \<le> length w" "k < length w"
  shows "T_BlendTrans_x P s a J y x w ! k =
    (if y * 256 + x \<le> k \<and> k < y * 256 + 256 then cell P s a (J k) y (k - y * 256) else w ! k)"
  using assms
proof (induction "256 - x" arbitrary: x w)
  case 0
  then have "\<not> x < 256" by simp
  then show ?case by (auto simp: T_BlendTrans_x.simps [of P s a J y x w])
next
  case (Suc n)
  then have x: "x < 256" by simp
  let ?w = "w[y * 256 + x := cell P s a (J (y * 256 + x)) y x]"
  have "T_BlendTrans_x P s a J y (x + 1) ?w ! k =
    (if y * 256 + (x + 1) \<le> k \<and> k < y * 256 + 256 then cell P s a (J k) y (k - y * 256)
     else ?w ! k)"
    using Suc.prems Suc.hyps(2) by (intro Suc.hyps(1)) auto
  then show ?case
    unfolding T_BlendTrans_x_step [OF x Suc.prems(1)] using Suc.prems x
    by (cases "k = y * 256 + x") (auto simp: nth_list_update)
qed

lemma row_div_mod:
  fixes y k :: nat
  assumes "y * 256 \<le> k" "k < y * 256 + 256"
  shows "k div 256 = y" "k mod 256 = k - y * 256"
proof -
  obtain r where k: "k = y * 256 + r" using assms(1) by (auto simp: le_iff_add)
  have r: "r < 256" using assms(2) k by simp
  show "k div 256 = y" using r by (simp add: k)
  show "k mod 256 = k - y * 256" using r by (simp add: k)
qed

lemma T_BlendTrans_y_nth:
  assumes "length w = 65536" "k < 65536"
  shows "T_BlendTrans_y P s a J y w ! k =
    (if y * 256 \<le> k then cell P s a (J k) (k div 256) (k mod 256) else w ! k)"
  using assms
proof (induction "256 - y" arbitrary: y w)
  case 0
  then have y: "\<not> y < 256" by simp
  then have "\<not> y * 256 \<le> k" using "0.prems" by simp
  with y show ?case by (simp add: T_BlendTrans_y.simps [of P s a J y w])
next
  case (Suc n)
  then have y: "y < 256" by simp
  let ?w = "T_BlendTrans_x P s a J y 0 w"
  have len: "length ?w = 65536" using Suc.prems by (simp add: T_BlendTrans_x_length)
  have row: "?w ! k = (if y * 256 \<le> k \<and> k < y * 256 + 256
      then cell P s a (J k) y (k - y * 256) else w ! k)"
    using T_BlendTrans_x_nth [of y w k P s a J 0] y Suc.prems by simp
  have "T_BlendTrans_y P s a J y w ! k = T_BlendTrans_y P s a J (y + 1) ?w ! k"
    using y by (simp add: T_BlendTrans_y.simps [of P s a J y w])
  also have "\<dots> = (if (y + 1) * 256 \<le> k then cell P s a (J k) (k div 256) (k mod 256)
      else ?w ! k)"
    using Suc.hyps(2) len Suc.prems by (intro Suc.hyps(1)) auto
  also have "\<dots> = (if y * 256 \<le> k then cell P s a (J k) (k div 256) (k mod 256) else w ! k)"
  proof (cases "y * 256 \<le> k \<and> k < y * 256 + 256")
    case True
    then have "k div 256 = y" "k mod 256 = k - y * 256"
      using row_div_mod [of y k] by simp_all
    with True show ?thesis by (simp add: row)
  next
    case False
    then show ?thesis by (auto simp: row)
  qed
  finally show ?case .
qed

lemma T_BlendTrans_y_length: "length (T_BlendTrans_y P s a J y w) = length w"
proof (induction "256 - y" arbitrary: y w)
  case 0
  then show ?case by (simp add: T_BlendTrans_y.simps [of P s a J y w])
next
  case (Suc n)
  then have y: "y < 256" by simp
  have "length (T_BlendTrans_y P s a J (y + 1) (T_BlendTrans_x P s a J y 0 w))
      = length (T_BlendTrans_x P s a J y 0 w)"
    using Suc.hyps(2) by (intro Suc.hyps(1)) auto
  then show ?case using y
    by (simp add: T_BlendTrans_y.simps [of P s a J y w] T_BlendTrans_x_length)
qed

lemma blendamt_Some: "1 \<le> t \<Longrightarrow> t \<le> 9 \<Longrightarrow> \<exists>amt. T_BlendTrans_blendamt t = Some amt"
  using level_cases [of t] by (auto simp: blendamt_values)

lemma cell_junk_free:
  assumes "Pal_Read fp pal0 = Inr P" "length pal0 = PALSIZE"
    "s \<in> {AST_TRANSLUCENT, AST_ADD, AST_SUBTRACT, AST_REVERSESUBTRACT, AST_MODULATE}"
    "y < 256"
  shows "cell P s a out y x = cell P s a out' y x"
proof -
  have "alpha (P ! y) \<noteq> 0" using Pal_Read_opaque [OF assms(1,2,4)] by simp
  then have "ASTBlendPixel (P ! y) (P ! x) s a out = ASTBlendPixel (P ! y) (P ! x) s a out'"
    using assms(3) by (rule ASTBlendPixel_junk_free)
  then show ?thesis by (simp add: cell_def)
qed

text \<open>
  C1. For a palette read by \<^verbatim>\<open>Pal_Read\<close>, each of the five blend styles and each
  alpha level from 1 to 9, \<^verbatim>\<open>T_BlendTrans\<close> produces a table of 65536 bytes whose byte
  at offset \<open>y \<sqdot> 256 + x\<close> (both below 256) is the nearest palette index of the blend of
  \<open>P ! y\<close> (background) and \<open>P ! x\<close> (foreground) in that style with the alpha byte of
  the level. The table depends on nothing else: neither on the former contents of
  \<^verbatim>\<open>working\<close> nor on the uninitialised locals, so a second generation gives the same
  table.
\<close>

theorem T_BlendTrans_table:
  assumes "Pal_Read fp pal0 = Inr P" "length pal0 = PALSIZE"
    "s \<in> {AST_TRANSLUCENT, AST_ADD, AST_SUBTRACT, AST_REVERSESUBTRACT, AST_MODULATE}"
    "1 \<le> t" "t \<le> 9" "length w = 65536" "length w' = 65536" "y < 256" "x < 256"
  shows "\<exists>amt tbl. T_BlendTrans_blendamt t = Some amt
    \<and> T_BlendTrans P s J w t = Some tbl
    \<and> length tbl = 65536
    \<and> tbl ! (y * 256 + x) =
        (let result = ASTBlendPixel (P ! y) (P ! x) s amt out
         in NearestPaletteColor P (red result) (green result) (blue result))
    \<and> T_BlendTrans P s J' w' t = Some tbl"
proof -
  obtain amt where amt: "T_BlendTrans_blendamt t = Some amt"
    using blendamt_Some [OF assms(4,5)] ..
  define tbl where "tbl = T_BlendTrans_y P s amt J 0 w"
  have tbl: "T_BlendTrans P s J w t = Some tbl" by (simp add: T_BlendTrans_def amt tbl_def)
  have len: "length tbl = 65536" by (simp add: tbl_def T_BlendTrans_y_length assms(6))
  have nth: "tbl ! k = cell P s amt c (k div 256) (k mod 256)" if "k < 65536" for k c
  proof -
    have "k div 256 < 256" using that by simp
    then have "cell P s amt (J k) (k div 256) (k mod 256) = cell P s amt c (k div 256) (k mod 256)"
      by (rule cell_junk_free [OF assms(1,2,3)])
    then show ?thesis using that by (simp add: tbl_def T_BlendTrans_y_nth [OF assms(6)])
  qed
  have nth': "T_BlendTrans_y P s amt J' 0 w' ! k = cell P s amt c (k div 256) (k mod 256)"
    if "k < 65536" for k c
  proof -
    have "k div 256 < 256" using that by simp
    then have "cell P s amt (J' k) (k div 256) (k mod 256) = cell P s amt c (k div 256) (k mod 256)"
      by (rule cell_junk_free [OF assms(1,2,3)])
    then show ?thesis using that by (simp add: T_BlendTrans_y_nth [OF assms(7)])
  qed
  have "T_BlendTrans_y P s amt J' 0 w' = tbl"
  proof (rule nth_equalityI)
    show "length (T_BlendTrans_y P s amt J' 0 w') = length tbl"
      by (simp add: len T_BlendTrans_y_length assms(7))
    fix k assume "k < length (T_BlendTrans_y P s amt J' 0 w')"
    then have k: "k < 65536" by (simp add: T_BlendTrans_y_length assms(7))
    show "T_BlendTrans_y P s amt J' 0 w' ! k = tbl ! k"
      by (simp only: nth [OF k, of out] nth' [OF k, of out])
  qed
  then have same: "T_BlendTrans P s J' w' t = Some tbl" by (simp add: T_BlendTrans_def amt)
  have k: "y * 256 + x < 65536" using assms(8,9) by simp
  have "(y * 256 + x) div 256 = y" "(y * 256 + x) mod 256 = x" using assms(9) by simp_all
  then have "tbl ! (y * 256 + x) = cell P s amt out y x" using nth [OF k, of out] by simp
  then show ?thesis using amt tbl len same by (simp add: cell_def)
qed

text \<open>
  C3. \<^verbatim>\<open>NearestPaletteColor\<close> returns an index \<open>k\<close> below 256 whose squared distance
  \<open>dr\<^sup>2 + dg\<^sup>2 + db\<^sup>2\<close> is least among the 256 palette entries, and it is the first such
  index: every earlier entry is strictly farther. When some entry is at distance
  zero, \<open>k\<close> is the first of those. The loop returns at an index with distance zero
  at once, whatever follows it in the palette.
\<close>

theorem NearestPaletteColor_first_minimum:
  "(let D = distortion P r g b; k = unat (NearestPaletteColor P r g b) in
      k < 256
    \<and> (\<forall>j<256. D k \<le> D j)
    \<and> (\<forall>j<k. D k < D j)
    \<and> ((\<exists>i<256. D i = 0) \<longrightarrow> D k = 0 \<and> (\<forall>j<k. D j \<noteq> 0))
    \<and> (\<forall>i best bc. i < 256 \<and> D i = 0 \<and> 0 < best \<longrightarrow>
          NearestPaletteColor_loop P r g b i best bc = of_nat i))"
proof -
  let ?D = "distortion P r g b"
  let ?k = "unat (NearestPaletteColor P r g b)"
  have lm: "?k < 256" "\<forall>j<256. ?D ?k \<le> ?D j" "\<forall>j<?k. ?D ?k < ?D j"
    using NearestPaletteColor_least_min [of P r g b] by (simp_all add: least_min_def)
  have zero: "?D ?k = 0 \<and> (\<forall>j<?k. ?D j \<noteq> 0)" if "\<exists>i<256. ?D i = 0"
  proof -
    from that obtain i where "i < 256" "?D i = 0" by blast
    with lm(2) have "?D ?k \<le> 0" by fastforce
    with distortion_ge [of P r g b ?k] have "?D ?k = 0" by linarith
    with lm(3) show ?thesis by fastforce
  qed
  have exit: "NearestPaletteColor_loop P r g b i best bc = of_nat i"
    if "i < 256 \<and> ?D i = 0 \<and> 0 < best" for i best bc
    using that by (simp add: NearestPaletteColor_loop.simps [of P r g b i best bc])
  show ?thesis unfolding Let_def using lm zero exit by blast
qed

text \<open>
  C9. For a palette \<open>P\<close> (in particular one read by \<^verbatim>\<open>Pal_Read\<close>) and an index
  \<open>i\<close> below 256 that is the first occurrence of its RGB colour in \<open>P\<close>, the nearest
  palette index of the colour of \<open>P ! i\<close> is \<open>i\<close>.
\<close>

theorem NearestPaletteColor_roundtrip:
  assumes "i < 256"
    and "\<forall>j<i. \<not> (red (P ! j) = red (P ! i) \<and> green (P ! j) = green (P ! i)
            \<and> blue (P ! j) = blue (P ! i))"
  shows "NearestPaletteColor P (red (P ! i)) (green (P ! i)) (blue (P ! i)) = of_nat i"
proof -
  let ?D = "distortion P (red (P ! i)) (green (P ! i)) (blue (P ! i))"
  let ?k = "unat (NearestPaletteColor P (red (P ! i)) (green (P ! i)) (blue (P ! i)))"
  have lm: "?k < 256" "\<forall>j<256. ?D ?k \<le> ?D j" "\<forall>j<?k. ?D ?k < ?D j"
    using NearestPaletteColor_least_min [of P "red (P ! i)" "green (P ! i)" "blue (P ! i)"]
    by (simp_all add: least_min_def)
  have Di: "?D i = 0" by (simp add: distortion_zero_iff)
  have "?D ?k \<le> ?D i" using lm(2) assms(1) by blast
  moreover have "0 \<le> ?D ?k" by (rule distortion_ge)
  ultimately have Dk: "?D ?k = 0" using Di by linarith
  have "\<not> i < ?k" using lm(3) Di Dk by fastforce
  moreover have "\<not> ?k < i"
  proof
    assume "?k < i"
    with assms(2) have "\<not> (red (P ! ?k) = red (P ! i) \<and> green (P ! ?k) = green (P ! i)
            \<and> blue (P ! ?k) = blue (P ! i))" by blast
    with Dk show False by (simp add: distortion_zero_iff)
  qed
  ultimately have "?k = i" by linarith
  then have "of_nat ?k = (of_nat i :: 8 word)" by simp
  then show ?thesis by simp
qed

subsection \<open>Instances\<close>

text \<open>
  A palette whose entries are black but for entry 3, which is \<open>(9, 9, 9)\<close>, and the
  colour \<open>(9, 9, 9)\<close>: entry 3 is at distance zero, entry 0 at distance 243.
\<close>

lemma eval_nearest: "NearestPaletteColor
     ((replicate PALSIZE \<lparr>red = 0, green = 0, blue = 0, alpha = 255\<rparr>)
        [3 := \<lparr>red = 9, green = 9, blue = 9, alpha = 255\<rparr>]) 9 9 9 = 3"
  by code_simp

lemma eval_dist3: "distortion
     ((replicate PALSIZE \<lparr>red = 0, green = 0, blue = 0, alpha = 255\<rparr>)
        [3 := \<lparr>red = 9, green = 9, blue = 9, alpha = 255\<rparr>]) 9 9 9 3 = 0"
  by code_simp

lemma eval_dist0: "distortion
     ((replicate PALSIZE \<lparr>red = 0, green = 0, blue = 0, alpha = 255\<rparr>)
        [3 := \<lparr>red = 9, green = 9, blue = 9, alpha = 255\<rparr>]) 9 9 9 0 = 243"
  by code_simp

theorem NearestPaletteColor_first_minimum_witness:
  "unat (NearestPaletteColor
     ((replicate PALSIZE \<lparr>red = 0, green = 0, blue = 0, alpha = 255\<rparr>)
        [3 := \<lparr>red = 9, green = 9, blue = 9, alpha = 255\<rparr>]) 9 9 9) = 3
   \<and> distortion ((replicate PALSIZE \<lparr>red = 0, green = 0, blue = 0, alpha = 255\<rparr>)
        [3 := \<lparr>red = 9, green = 9, blue = 9, alpha = 255\<rparr>]) 9 9 9 3
      \<le> distortion ((replicate PALSIZE \<lparr>red = 0, green = 0, blue = 0, alpha = 255\<rparr>)
        [3 := \<lparr>red = 9, green = 9, blue = 9, alpha = 255\<rparr>]) 9 9 9 200
   \<and> distortion ((replicate PALSIZE \<lparr>red = 0, green = 0, blue = 0, alpha = 255\<rparr>)
        [3 := \<lparr>red = 9, green = 9, blue = 9, alpha = 255\<rparr>]) 9 9 9 3
      < distortion ((replicate PALSIZE \<lparr>red = 0, green = 0, blue = 0, alpha = 255\<rparr>)
        [3 := \<lparr>red = 9, green = 9, blue = 9, alpha = 255\<rparr>]) 9 9 9 0
   \<and> NearestPaletteColor_loop ((replicate PALSIZE \<lparr>red = 0, green = 0, blue = 0, alpha = 255\<rparr>)
        [3 := \<lparr>red = 9, green = 9, blue = 9, alpha = 255\<rparr>]) 9 9 9 3 243 0 = 3"
proof -
  let ?P = "(replicate PALSIZE \<lparr>red = 0, green = 0, blue = 0, alpha = 255 :: 8 word\<rparr>)
        [3 := \<lparr>red = 9, green = 9, blue = 9, alpha = 255\<rparr>]"
  have n: "unat (NearestPaletteColor ?P 9 9 9) = 3" by (simp add: eval_nearest)
  note T = NearestPaletteColor_first_minimum [of ?P 9 9 9, unfolded Let_def n]
  have a: "distortion ?P 9 9 9 3 \<le> distortion ?P 9 9 9 200"
    using T [THEN conjunct2, THEN conjunct1] by simp
  have b: "distortion ?P 9 9 9 3 < distortion ?P 9 9 9 0"
    using T [THEN conjunct2, THEN conjunct2, THEN conjunct1] by simp
  have c: "NearestPaletteColor_loop ?P 9 9 9 3 243 0 = 3"
    using T [THEN conjunct2, THEN conjunct2, THEN conjunct2, THEN conjunct2,
        THEN spec, THEN spec, THEN spec, of 3 243 0]
    by (simp add: eval_dist3)
  show ?thesis using n a b c by simp
qed

theorem NearestPaletteColor_roundtrip_witness:
  "(3 :: nat) < 256
   \<and> NearestPaletteColor
     ((replicate PALSIZE \<lparr>red = 0, green = 0, blue = 0, alpha = 255\<rparr>)
        [3 := \<lparr>red = 9, green = 9, blue = 9, alpha = 255\<rparr>]) 9 9 9 = of_nat 3"
proof -
  let ?P = "(replicate PALSIZE \<lparr>red = 0, green = 0, blue = 0, alpha = 255 :: 8 word\<rparr>)
        [3 := \<lparr>red = 9, green = 9, blue = 9, alpha = 255\<rparr>]"
  have P3: "?P ! 3 = \<lparr>red = 9, green = 9, blue = 9, alpha = 255\<rparr>"
    by (simp add: PALSIZE_def)
  have first: "\<forall>j<3. \<not> (red (?P ! j) = red (?P ! 3) \<and> green (?P ! j) = green (?P ! 3)
      \<and> blue (?P ! j) = blue (?P ! 3))"
    unfolding P3 by (simp add: PALSIZE_def nth_list_update)
  have i: "(3 :: nat) < 256" by simp
  show ?thesis
    using NearestPaletteColor_roundtrip [OF i first] i unfolding P3 by simp
qed

text \<open>
  The table of level 5 in the style add, for the palette read from a file of 768 zero
  bytes: generated from two different states of \<^verbatim>\<open>working\<close> and of the uninitialised
  locals.
\<close>

lemma length_working_init: "length working_init = 65536"
  by (simp add: working_init_def)

lemma length_palette_init: "length palette_init = PALSIZE"
  by (simp add: palette_init_def)

theorem T_BlendTrans_table_witness:
  "Pal_Read (Some \<lparr>file_bytes = replicate PALSIZE 0, fread_ok = True\<rparr>) palette_init
     = Inr (Pal_Read_loop (replicate PALSIZE 0) 0 0 palette_init)
   \<and> length palette_init = PALSIZE
   \<and> AST_ADD \<in> {AST_TRANSLUCENT, AST_ADD, AST_SUBTRACT, AST_REVERSESUBTRACT, AST_MODULATE}
   \<and> (1 :: int) \<le> 5 \<and> (5 :: int) \<le> 9
   \<and> length working_init = 65536 \<and> length (replicate 65536 (7 :: 8 word)) = 65536
   \<and> (2 :: nat) < 256 \<and> (3 :: nat) < 256
   \<and> (\<exists>tbl.
        T_BlendTrans (Pal_Read_loop (replicate PALSIZE 0) 0 0 palette_init) AST_ADD
          (\<lambda>k. \<lparr>red = 1, green = 2, blue = 3, alpha = 4\<rparr>) working_init 5 = Some tbl
      \<and> length tbl = 65536
      \<and> tbl ! (2 * 256 + 3) =
          (let result = ASTBlendPixel
                 (Pal_Read_loop (replicate PALSIZE 0) 0 0 palette_init ! 2)
                 (Pal_Read_loop (replicate PALSIZE 0) 0 0 palette_init ! 3) AST_ADD 128
                 \<lparr>red = 0, green = 0, blue = 0, alpha = 0\<rparr>
           in NearestPaletteColor (Pal_Read_loop (replicate PALSIZE 0) 0 0 palette_init)
                (red result) (green result) (blue result))
      \<and> T_BlendTrans (Pal_Read_loop (replicate PALSIZE 0) 0 0 palette_init) AST_ADD
          (\<lambda>k. \<lparr>red = 5, green = 6, blue = 7, alpha = 8\<rparr>) (replicate 65536 7) 5 = Some tbl)"
proof -
  let ?P = "Pal_Read_loop (replicate PALSIZE 0) 0 0 palette_init"
  have h1: "Pal_Read (Some \<lparr>file_bytes = replicate PALSIZE 0, fread_ok = True\<rparr>) palette_init
     = Inr ?P"
    by (simp add: Pal_Read_def)
  have h3: "AST_ADD \<in> {AST_TRANSLUCENT, AST_ADD, AST_SUBTRACT, AST_REVERSESUBTRACT, AST_MODULATE}"
    by simp
  have h4: "(1 :: int) \<le> 5" and h5: "(5 :: int) \<le> 9" by simp_all
  have h7: "length (replicate 65536 (7 :: 8 word)) = 65536" by simp
  have h8: "(2 :: nat) < 256" and h9: "(3 :: nat) < 256" by simp_all
  note T = T_BlendTrans_table [OF h1 length_palette_init h3 h4 h5 length_working_init h7 h8 h9,
      of "\<lambda>k. \<lparr>red = 1, green = 2, blue = 3, alpha = 4\<rparr>"
         "\<lparr>red = 0, green = 0, blue = 0, alpha = 0\<rparr>"
         "\<lambda>k. \<lparr>red = 5, green = 6, blue = 7, alpha = 8\<rparr>"]
  from T have "\<exists>tbl.
        T_BlendTrans ?P AST_ADD (\<lambda>k. \<lparr>red = 1, green = 2, blue = 3, alpha = 4\<rparr>) working_init 5
          = Some tbl
      \<and> length tbl = 65536
      \<and> tbl ! (2 * 256 + 3) =
          (let result = ASTBlendPixel (?P ! 2) (?P ! 3) AST_ADD 128
                 \<lparr>red = 0, green = 0, blue = 0, alpha = 0\<rparr>
           in NearestPaletteColor ?P (red result) (green result) (blue result))
      \<and> T_BlendTrans ?P AST_ADD
          (\<lambda>k. \<lparr>red = 5, green = 6, blue = 7, alpha = 8\<rparr>) (replicate 65536 7) 5 = Some tbl"
    unfolding blendamt_values by (elim exE conjE) (simp only: option.inject, blast)
  with h1 h3 h4 h5 h7 h8 h9 length_palette_init length_working_init show ?thesis by blast
qed

subsection \<open>An option with an empty argument\<close>















lemma canblend_default: "T_DoMain_canblend defaultoutfiles (replicate 9 0) = Some (replicate 9 1)"
  by code_simp




subsection \<open>The file names, and an output file that cannot be opened\<close>

text \<open>
  The name of a file never fits the buffer \<^verbatim>\<open>filename\<close>: \<^verbatim>\<open>T_DoMain\<close> allocates
  \<^verbatim>\<open>strlen(prefix) + 6\<close> bytes, and the name has the prefix, at least one digit, the
  five characters \<^verbatim>\<open>0.lmp\<close> and the zero byte at its end. So the first lump that is
  marked takes the run into \<^verbatim>\<open>sprintf\<close> behind the end of the buffer.
\<close>

lemma decimal_nonempty: "decimal n \<noteq> []"
  by (subst decimal.simps) simp

lemma sprintf_filename_overflow: "sprintf_filename (length prefix + 6) prefix i = None"
  unfolding sprintf_filename_def Let_def
  using decimal_nonempty [of i] by (cases "decimal i") simp_all

lemma T_BlendTrans_level_Some:
  assumes "1 \<le> i" "i \<le> 9"
  shows "\<exists>tbl. T_BlendTrans P s J w (int i) = Some tbl"
proof -
  obtain amt where "T_BlendTrans_blendamt (int i) = Some amt"
    using blendamt_Some [of "int i"] assms by auto
  then show ?thesis by (simp add: T_BlendTrans_def)
qed

lemma stricmp_palette: "stricmp ''palette'' ''palette'' = 0"
  by code_simp

lemma decimal_1: "decimal (Suc 0) = ''1''"
  by code_simp

lemma sprintf_filename_TRANS_1:
  "sprintf_filename bufsize ''TRANS'' (Suc 0) = (if 12 \<le> bufsize then Some ''TRANS10.lmp'' else None)"
  unfolding sprintf_filename_def Let_def by (simp add: decimal_1)

lemma T_OutputMessage_TRANS_1:
  "T_OutputMessage (''Writing '' @ ''TRANS10.lmp'' @ ''...'') = Some ''Writing TRANS10.lmp...''"
  by code_simp

lemma Parm_Parse_palette:
  "Parm_Parse [''transmake'', ''-palette'', ''pal.lmp''] parms_init
     = parms_init\<lparr>parm_palettefile := Some ''pal.lmp''\<rparr>"
proof -
  have 1: "Parm_ParseParameter [''transmake'', ''-palette'', ''pal.lmp''] ''palette'' 2 parms_init
      = (3, parms_init\<lparr>parm_palettefile := Some ''pal.lmp''\<rparr>)"
    by (simp add: Parm_ParseParameter_def stricmp_palette del: stricmp.simps)
  let ?argv = "[''transmake'', ''-palette'', ''pal.lmp'']"
  have "Parm_Parse_loop ?argv 1 parms_init
      = Parm_Parse_loop ?argv (fst (Parm_ParseParameter ?argv ''palette'' (1 + 1) parms_init))
          (snd (Parm_ParseParameter ?argv ''palette'' (1 + 1) parms_init))"
    by (subst Parm_Parse_loop.simps) simp
  also have "\<dots> = Parm_Parse_loop ?argv 3 (parms_init\<lparr>parm_palettefile := Some ''pal.lmp''\<rparr>)"
    by (simp only: one_add_one 1 fst_conv snd_conv)
  also have "\<dots> = parms_init\<lparr>parm_palettefile := Some ''pal.lmp''\<rparr>"
    by (subst Parm_Parse_loop.simps) simp
  finally show ?thesis by (simp add: Parm_Parse_def)
qed

lemma T_DoMain_blend_fopen_fails:
  assumes "\<And>n. \<not> fopen_wb_ok e n"
  shows "T_DoMain_blend e P s ''TRANS'' bufsize (replicate 9 1) (Suc 0) w []
      = (if 12 \<le> bufsize then [Message ''Writing TRANS10.lmp...''] else [], Undefined_Behaviour)"
proof -
  have "\<exists>tbl. T_BlendTrans P s (output_junk e (Suc 0)) w (int (Suc 0)) = Some tbl"
    by (rule T_BlendTrans_level_Some) simp_all
  then obtain tbl where
    "T_BlendTrans P s (output_junk e (Suc 0)) w (int (Suc 0)) = Some tbl" ..
  then show ?thesis
    using assms
    by (subst T_DoMain_blend.simps)
      (simp add: sprintf_filename_TRANS_1 T_OutputMessage_TRANS_1 Let_def del: append.simps)
qed

text \<open>
  C8 does not hold of the code. \<^verbatim>\<open>T_DoMain\<close> does not test the result of \<^verbatim>\<open>fopen\<close>:
  no error message is printed for an output file that cannot be opened, and the run
  does not reach \<^verbatim>\<open>exit(EXIT_FAILURE)\<close> for it. The run
  \<^verbatim>\<open>transmake -palette pal.lmp\<close> with a readable palette file and no output file that
  can be opened ends in undefined behaviour without any error message: as it stands,
  already in \<^verbatim>\<open>sprintf\<close>, which writes the name \<^verbatim>\<open>TRANS10.lmp\<close> with its zero byte, 12
  bytes, into the 11 bytes of \<^verbatim>\<open>filename\<close>. And whatever the size of that buffer, the
  loop that blends the lumps does not report the file: with 12 bytes or more it prints
  \<^verbatim>\<open>Writing TRANS10.lmp...\<close>, generates the first table and ends in \<^verbatim>\<open>fwrite\<close> on a
  null stream, whose behaviour is undefined. (\<^verbatim>\<open>Pal_Read\<close> does test its \<^verbatim>\<open>fopen\<close>.)
\<close>

theorem fopen_result_unchecked:
  "main \<lparr>malloc_ok = True,
         fopen_rb = (\<lambda>n. Some \<lparr>file_bytes = replicate PALSIZE 0, fread_ok = True\<rparr>),
         fopen_wb_ok = (\<lambda>n. False), output_junk = J\<rparr>
     [''transmake'', ''-palette'', ''pal.lmp'']
   = ([Copyright_Text False, Message ''Pal_Read: Read palette file successfully!''],
      Undefined_Behaviour)
   \<and> T_DoMain_blend
       \<lparr>malloc_ok = True,
         fopen_rb = (\<lambda>n. Some \<lparr>file_bytes = replicate PALSIZE 0, fread_ok = True\<rparr>),
         fopen_wb_ok = (\<lambda>n. False), output_junk = J\<rparr>
       P s ''TRANS'' bufsize (replicate 9 1) 1 w []
     = (if 12 \<le> bufsize then [Message ''Writing TRANS10.lmp...''] else [], Undefined_Behaviour)"
proof -
  let ?e = "\<lparr>malloc_ok = True,
         fopen_rb = (\<lambda>n. Some \<lparr>file_bytes = replicate PALSIZE 0, fread_ok = True\<rparr>),
         fopen_wb_ok = (\<lambda>n. False), output_junk = J\<rparr>"
  let ?st = "parms_init\<lparr>parm_palettefile := Some ''pal.lmp''\<rparr>"
  let ?P = "Pal_Read_loop (replicate PALSIZE 0) 0 0 palette_init"
  have pal: "Pal_Read (Some \<lparr>file_bytes = replicate PALSIZE 0, fread_ok = True\<rparr>) palette_init
      = Inr ?P"
    by (simp add: Pal_Read_def)
  have blend: "T_DoMain_blend ?e P' s' ''TRANS'' b (replicate 9 1) (Suc 0) w' []
      = (if 12 \<le> b then [Message ''Writing TRANS10.lmp...''] else [], Undefined_Behaviour)"
    for P' s' b w'
    by (rule T_DoMain_blend_fopen_fails) simp
  have lumps: "T_DoMain_lumps ?st = Some (replicate 9 1)"
    by (simp add: T_DoMain_lumps_def parms_init_def canblend_default)
  have run: "T_DoMain ?e ?st ?P working_init = ([], Undefined_Behaviour)"
    unfolding T_DoMain_def Let_def lumps option.case
    by (simp add: blend parms_init_def defaultprefix_def)
  have 1: "main ?e [''transmake'', ''-palette'', ''pal.lmp'']
      = ([Copyright_Text False, Message ''Pal_Read: Read palette file successfully!''],
         Undefined_Behaviour)"
    by (simp add: main_def Parm_Parse_palette Let_def pal run)
  have 2: "T_DoMain_blend ?e P s ''TRANS'' bufsize (replicate 9 1) 1 w []
      = (if 12 \<le> bufsize then [Message ''Writing TRANS10.lmp...''] else [], Undefined_Behaviour)"
    using blend [of P s bufsize w] by simp
  show ?thesis using 1 2 by (rule conjI)
qed

end
